theory Spec2Isabelle
  imports Main "HOL-Library.Sublist" "HOL-Library.Multiset"
begin

section \<open>The activity table of app.py\<close>

text \<open>
  The class \<^verbatim>\<open>Activity\<close> of app.py, one row of the only table. The field \<^verbatim>\<open>id\<close> is
  written \<open>id'\<close> here (\<open>id\<close> is the identity function of HOL). Optional fields are
  options; \<^verbatim>\<open>participants\<close> has the declared type \<^verbatim>\<open>List[str]\<close>.
\<close>

record Activity =
  id' :: "int option"
  name :: string
  description :: "string option"
  schedule :: "string option"
  max_participants :: "int option"
  participants :: "string list"

text \<open>
  The table is the list of its rows, in the order of their insertion. The engine and the
  sessions of app.py become explicit state passing: every handler takes the table and
  returns the table it leaves behind.
\<close>

type_synonym table = "Activity list"

text \<open>\<^verbatim>\<open>HTTPException(status_code=..., detail=...)\<close>, the only exception the handlers raise.\<close>

datatype http_exception = HTTPException (status_code: nat) (detail: string)

text \<open>A handler's outcome: the exception raised or the dictionary returned, and the table.\<close>

type_synonym 'a outcome = "(http_exception + 'a) \<times> table"

subsection \<open>Store operations used by the handlers\<close>

text \<open>
  \<^verbatim>\<open>session.exec(select(Activity).where(Activity.name == activity_name)).first()\<close>:
  the first row with that name, or \<^verbatim>\<open>None\<close>.
\<close>

definition select_where_name :: "table \<Rightarrow> string \<Rightarrow> Activity option" where
  "select_where_name db activity_name = find (\<lambda>a. name a = activity_name) db"

text \<open>
  \<^verbatim>\<open>session.add(activity); session.commit()\<close> for a row read from the table: an
  UPDATE of the row with the primary key of \<open>activity\<close>.
\<close>

definition commit_update :: "table \<Rightarrow> Activity \<Rightarrow> table" where
  "commit_update db activity = map (\<lambda>r. if id' r = id' activity then activity else r) db"

text \<open>
  \<^verbatim>\<open>session.add(a)\<close> for a new object, whose \<^verbatim>\<open>id\<close> is \<^verbatim>\<open>None\<close>: the INSERT gives it
  the next integer key (one more than the largest key of the table, 1 in an empty one).
\<close>

definition next_id :: "table \<Rightarrow> int" where
  "next_id db = fold (\<lambda>r m. case id' r of None \<Rightarrow> m | Some i \<Rightarrow> max m i) db 0 + 1"

definition session_add :: "table \<Rightarrow> Activity \<Rightarrow> table" where
  "session_add db a = db @ [a\<lparr>id' := Some (next_id db)\<rparr>]"

text \<open>\<^verbatim>\<open>xs or []\<close> on a list: an empty list is falsy, so the right operand is taken.\<close>

definition or_empty :: "'a list \<Rightarrow> 'a list" where
  "or_empty xs = (if xs = [] then [] else xs)"

subsection \<open>Seeding\<close>

definition seed :: "Activity list" where
  "seed =
    [\<lparr>id' = None, name = ''Chess Club'',
      description = Some ''Learn strategies and compete in chess tournaments'',
      schedule = Some ''Fridays, 3:30 PM - 5:00 PM'', max_participants = Some 12,
      participants = [''michael@mergington.edu'', ''daniel@mergington.edu'']\<rparr>,
     \<lparr>id' = None, name = ''Programming Class'',
      description = Some ''Learn programming fundamentals and build software projects'',
      schedule = Some ''Tuesdays and Thursdays, 3:30 PM - 4:30 PM'', max_participants = Some 20,
      participants = [''emma@mergington.edu'', ''sophia@mergington.edu'']\<rparr>,
     \<lparr>id' = None, name = ''Gym Class'',
      description = Some ''Physical education and sports activities'',
      schedule = Some ''Mondays, Wednesdays, Fridays, 2:00 PM - 3:00 PM'', max_participants = Some 30,
      participants = [''john@mergington.edu'', ''olivia@mergington.edu'']\<rparr>]"

text \<open>
  \<^verbatim>\<open>init_db\<close>: \<^verbatim>\<open>select(Activity)\<close> and \<^verbatim>\<open>first()\<close>; when there is no row, every seed
  activity is added in order and the session committed.
\<close>

definition init_db :: "table \<Rightarrow> table" where
  "init_db db =
    (case db of
       [] \<Rightarrow> fold (\<lambda>a d. session_add d a) seed db
     | any_activity # _ \<Rightarrow> db)"

subsection \<open>The handlers\<close>

text \<open>
  The values of the dictionary that \<^verbatim>\<open>get_activities\<close> returns: \<^verbatim>\<open>None\<close>, a string, an
  integer or a list.
\<close>

datatype pyval = PyNone | PyStr string | PyInt int | PyList "pyval list"

definition py_opt_str :: "string option \<Rightarrow> pyval" where
  "py_opt_str v = (case v of None \<Rightarrow> PyNone | Some s \<Rightarrow> PyStr s)"

definition py_opt_int :: "int option \<Rightarrow> pyval" where
  "py_opt_int v = (case v of None \<Rightarrow> PyNone | Some i \<Rightarrow> PyInt i)"

text \<open>The inner dictionary literal of \<^verbatim>\<open>get_activities\<close>, its keys in the order written.\<close>

definition activity_details :: "Activity \<Rightarrow> (string \<times> pyval) list" where
  "activity_details a =
    [(''description'', py_opt_str (description a)),
     (''schedule'', py_opt_str (schedule a)),
     (''max_participants'', py_opt_int (max_participants a)),
     (''participants'', PyList (map PyStr (participants a)))]"

text \<open>
  \<^verbatim>\<open>get_activities\<close>: the dictionary comprehension over all rows; a later row with the
  same name replaces the entry of an earlier one.
\<close>

definition get_activities :: "table \<Rightarrow> (string \<rightharpoonup> (string \<times> pyval) list)" where
  "get_activities db = fold (\<lambda>a m. m(name a \<mapsto> activity_details a)) db Map.empty"

text \<open>\<^verbatim>\<open>signup_for_activity\<close>. Nothing is committed on the two paths that raise.\<close>

definition signup_for_activity :: "table \<Rightarrow> string \<Rightarrow> string \<Rightarrow> (string \<times> string) list outcome" where
  "signup_for_activity db activity_name email =
    (case select_where_name db activity_name of
       None \<Rightarrow> (Inl (HTTPException 404 ''Activity not found''), db)
     | Some activity \<Rightarrow>
         if email \<in> set (participants activity)
         then (Inl (HTTPException 400 ''Student is already signed up''), db)
         else
           let ps = or_empty (participants activity) @ [email];
               activity = activity\<lparr>participants := ps\<rparr>
           in (Inr [(''message'', ''Signed up '' @ email @ '' for '' @ activity_name)],
               commit_update db activity))"

text \<open>
  \<^verbatim>\<open>unregister_from_activity\<close>. \<^verbatim>\<open>participants.remove(email)\<close> deletes the first
  occurrence; it is reached only when \<^verbatim>\<open>email\<close> is in the list, so it cannot raise.
\<close>

definition unregister_from_activity :: "table \<Rightarrow> string \<Rightarrow> string \<Rightarrow> (string \<times> string) list outcome" where
  "unregister_from_activity db activity_name email =
    (case select_where_name db activity_name of
       None \<Rightarrow> (Inl (HTTPException 404 ''Activity not found''), db)
     | Some activity \<Rightarrow>
         let ps = or_empty (participants activity)
         in if email \<notin> set ps
            then (Inl (HTTPException 400 ''Student is not signed up for this activity''), db)
            else
              let ps = remove1 email ps;
                  activity = activity\<lparr>participants := ps\<rparr>
              in (Inr [(''message'', ''Unregistered '' @ email @ '' from '' @ activity_name)],
                  commit_update db activity))"

subsection \<open>Invariants of the table and reachable tables\<close>

text \<open>
  The primary key constraint (the keys of the rows are distinct) and the uniqueness of
  activity names. The column \<^verbatim>\<open>name\<close> is indexed but not declared unique, so the second
  part is an invariant of the program, not of the schema: the seed has three different
  names and no handler adds a row or renames one. Every reachable table has both parts
  (lemma \<open>reachable_store_ok\<close> below).
\<close>

definition store_ok :: "table \<Rightarrow> bool" where
  "store_ok db \<longleftrightarrow> distinct (map id' db) \<and> distinct (map name db)"

text \<open>No email occurs twice in the participants of one activity.\<close>

definition no_duplicates :: "table \<Rightarrow> bool" where
  "no_duplicates db \<longleftrightarrow> (\<forall>a \<in> set db. distinct (participants a))"

text \<open>
  The tables the program can hold: the empty table at first, then any sequence of
  startups (\<open>init_db\<close>), signups and unregistrations.
\<close>

inductive reachable :: "table \<Rightarrow> bool" where
  reachable_empty: "reachable []"
| reachable_init: "reachable db \<Longrightarrow> reachable (init_db db)"
| reachable_signup: "reachable db \<Longrightarrow> reachable (snd (signup_for_activity db n e))"
| reachable_unregister: "reachable db \<Longrightarrow> reachable (snd (unregister_from_activity db n e))"

text \<open>
  A reachable table in which "Chess Club" is at its capacity of 12: the seeded table after ten
  signups, of a@mergington.edu to j@mergington.edu.
\<close>

definition chess_club_full :: table where
  "chess_club_full =
    fold (\<lambda>e d. snd (signup_for_activity d ''Chess Club'' e))
      (map (\<lambda>c. c # ''@mergington.edu'') ''abcdefghij'') (init_db [])"

section \<open>Auxiliary facts\<close>

lemma select_where_name_None:
  "n \<notin> name ` set db \<Longrightarrow> select_where_name db n = None"
  by (auto simp: select_where_name_def find_None_iff)

subsection \<open>Lookup by name and update by key in a well-formed table\<close>

lemma select_where_name_unique:
  assumes "distinct (map name db)" "A \<in> set db"
  shows "select_where_name db (name A) = Some A"
  using assms
proof (induction db)
  case Nil
  then show ?case by simp
next
  case (Cons r db)
  show ?case
  proof (cases "r = A")
    case True
    then show ?thesis by (simp add: select_where_name_def)
  next
    case False
    with Cons.prems have "A \<in> set db" "name r \<noteq> name A" by auto
    with Cons show ?thesis by (simp add: select_where_name_def)
  qed
qed

lemma select_where_name_Some:
  "select_where_name db n = Some a \<Longrightarrow> a \<in> set db \<and> name a = n"
  by (auto simp: select_where_name_def find_Some_iff)

lemma commit_update_pk:
  assumes "distinct (map id' db)" "A \<in> set db" "id' B = id' A"
  shows "commit_update db B = map (\<lambda>r. if r = A then B else r) db"
proof -
  have "inj_on id' (set db)" using assms(1) by (simp add: distinct_map)
  then have "\<forall>r \<in> set db. (id' r = id' B) = (r = A)"
    using assms(2,3) by (auto dest: inj_onD)
  then show ?thesis by (simp add: commit_update_def cong: map_cong)
qed

lemma signup_success:
  assumes "store_ok db" "A \<in> set db" "e \<notin> set (participants A)"
  shows "signup_for_activity db (name A) e =
    (Inr [(''message'', ''Signed up '' @ e @ '' for '' @ name A)],
     map (\<lambda>r. if r = A then A\<lparr>participants := participants A @ [e]\<rparr> else r) db)"
proof -
  from assms have sel: "select_where_name db (name A) = Some A"
    by (simp add: store_ok_def select_where_name_unique)
  from assms have "commit_update db (A\<lparr>participants := participants A @ [e]\<rparr>) =
     map (\<lambda>r. if r = A then A\<lparr>participants := participants A @ [e]\<rparr> else r) db"
    by (intro commit_update_pk) (simp_all add: store_ok_def)
  with sel assms(3) show ?thesis
    by (simp add: signup_for_activity_def or_empty_def)
qed

lemma unregister_success:
  assumes "store_ok db" "A \<in> set db" "e \<in> set (participants A)"
  shows "unregister_from_activity db (name A) e =
    (Inr [(''message'', ''Unregistered '' @ e @ '' from '' @ name A)],
     map (\<lambda>r. if r = A then A\<lparr>participants := remove1 e (participants A)\<rparr> else r) db)"
proof -
  from assms have sel: "select_where_name db (name A) = Some A"
    by (simp add: store_ok_def select_where_name_unique)
  from assms have "commit_update db (A\<lparr>participants := remove1 e (participants A)\<rparr>) =
     map (\<lambda>r. if r = A then A\<lparr>participants := remove1 e (participants A)\<rparr> else r) db"
    by (intro commit_update_pk) (simp_all add: store_ok_def)
  with sel assms(3) show ?thesis
    by (auto simp add: unregister_from_activity_def or_empty_def)
qed

lemma store_ok_replace:
  assumes "store_ok db" "id' B = id' A" "name B = name A"
  shows "store_ok (map (\<lambda>r. if r = A then B else r) db)"
proof -
  have "map id' (map (\<lambda>r. if r = A then B else r) db) = map id' db"
    using assms(2) by (induction db) auto
  moreover have "map name (map (\<lambda>r. if r = A then B else r) db) = map name db"
    using assms(3) by (induction db) auto
  ultimately show ?thesis using assms(1) by (simp add: store_ok_def del: map_map)
qed

lemma select_after_replace:
  assumes "store_ok db" "A \<in> set db" "id' B = id' A" "name B = name A"
  shows "select_where_name (map (\<lambda>r. if r = A then B else r) db) (name A) = Some B"
proof -
  have ok: "store_ok (map (\<lambda>r. if r = A then B else r) db)"
    using assms by (simp add: store_ok_replace)
  have "B \<in> set (map (\<lambda>r. if r = A then B else r) db)"
    using assms(2) by (auto simp: image_iff)
  with ok have "select_where_name (map (\<lambda>r. if r = A then B else r) db) (name B) = Some B"
    by (simp add: store_ok_def select_where_name_unique)
  with assms(4) show ?thesis by simp
qed

subsection \<open>Seeding\<close>

lemma init_db_empty:
  "init_db [] =
    [\<lparr>id' = Some 1, name = ''Chess Club'',
      description = Some ''Learn strategies and compete in chess tournaments'',
      schedule = Some ''Fridays, 3:30 PM - 5:00 PM'', max_participants = Some 12,
      participants = [''michael@mergington.edu'', ''daniel@mergington.edu'']\<rparr>,
     \<lparr>id' = Some 2, name = ''Programming Class'',
      description = Some ''Learn programming fundamentals and build software projects'',
      schedule = Some ''Tuesdays and Thursdays, 3:30 PM - 4:30 PM'', max_participants = Some 20,
      participants = [''emma@mergington.edu'', ''sophia@mergington.edu'']\<rparr>,
     \<lparr>id' = Some 3, name = ''Gym Class'',
      description = Some ''Physical education and sports activities'',
      schedule = Some ''Mondays, Wednesdays, Fridays, 2:00 PM - 3:00 PM'', max_participants = Some 30,
      participants = [''john@mergington.edu'', ''olivia@mergington.edu'']\<rparr>]"
  by (simp add: init_db_def seed_def session_add_def next_id_def)

lemma init_db_nonempty: "db \<noteq> [] \<Longrightarrow> init_db db = db"
  by (cases db) (simp_all add: init_db_def)

lemma store_ok_seeded: "store_ok (init_db [])"
  by (simp add: init_db_empty store_ok_def)

lemma store_ok_init_db: "store_ok db \<Longrightarrow> store_ok (init_db db)"
  by (cases "db = []") (simp_all add: store_ok_seeded init_db_nonempty)

subsection \<open>The paths of the two mutating handlers\<close>

lemma signup_cases:
  obtains (not_found) "signup_for_activity db n e = (Inl (HTTPException 404 ''Activity not found''), db)"
  | (conflict) "signup_for_activity db n e = (Inl (HTTPException 400 ''Student is already signed up''), db)"
  | (ok) A where "A \<in> set db" "name A = n" "e \<notin> set (participants A)"
      "signup_for_activity db n e =
        (Inr [(''message'', ''Signed up '' @ e @ '' for '' @ n)],
         commit_update db (A\<lparr>participants := participants A @ [e]\<rparr>))"
proof (cases "select_where_name db n")
  case None
  then show ?thesis using not_found by (simp add: signup_for_activity_def)
next
  case (Some A)
  then have A: "A \<in> set db" "name A = n" by (auto dest: select_where_name_Some)
  show ?thesis
  proof (cases "e \<in> set (participants A)")
    case True
    with Some show ?thesis using conflict by (simp add: signup_for_activity_def)
  next
    case False
    with Some A show ?thesis using ok [of A] by (simp add: signup_for_activity_def or_empty_def)
  qed
qed

lemma unregister_cases:
  obtains (not_found) "unregister_from_activity db n e = (Inl (HTTPException 404 ''Activity not found''), db)"
  | (conflict) "unregister_from_activity db n e =
        (Inl (HTTPException 400 ''Student is not signed up for this activity''), db)"
  | (ok) A where "A \<in> set db" "name A = n" "e \<in> set (participants A)"
      "unregister_from_activity db n e =
        (Inr [(''message'', ''Unregistered '' @ e @ '' from '' @ n)],
         commit_update db (A\<lparr>participants := remove1 e (participants A)\<rparr>))"
proof (cases "select_where_name db n")
  case None
  then show ?thesis using not_found by (simp add: unregister_from_activity_def)
next
  case (Some A)
  then have A: "A \<in> set db" "name A = n" by (auto dest: select_where_name_Some)
  show ?thesis
  proof (cases "e \<in> set (participants A)")
    case False
    with Some show ?thesis using conflict
      by (simp add: unregister_from_activity_def or_empty_def)
  next
    case True
    with Some A show ?thesis using ok [of A]
      by (auto simp add: unregister_from_activity_def or_empty_def)
  qed
qed

subsection \<open>Every reachable table is well formed\<close>

lemma store_ok_commit_update:
  assumes "store_ok db" "A \<in> set db"
  shows "store_ok (commit_update db (A\<lparr>participants := ps\<rparr>))"
proof -
  have "commit_update db (A\<lparr>participants := ps\<rparr>) =
      map (\<lambda>r. if r = A then A\<lparr>participants := ps\<rparr> else r) db"
    using assms by (intro commit_update_pk) (simp_all add: store_ok_def)
  then show ?thesis using assms(1) by (simp add: store_ok_replace)
qed

lemma store_ok_signup: "store_ok db \<Longrightarrow> store_ok (snd (signup_for_activity db n e))"
  by (cases rule: signup_cases [of db n e]) (simp_all add: store_ok_commit_update)

lemma store_ok_unregister: "store_ok db \<Longrightarrow> store_ok (snd (unregister_from_activity db n e))"
  by (cases rule: unregister_cases [of db n e]) (simp_all add: store_ok_commit_update)

lemma reachable_store_ok: "reachable db \<Longrightarrow> store_ok db"
proof (induction rule: reachable.induct)
  case reachable_empty
  show ?case by (simp add: store_ok_def)
qed (simp_all add: store_ok_init_db store_ok_signup store_ok_unregister)

subsection \<open>Handlers keep participant lists duplicate-free\<close>

lemma no_duplicates_commit_update:
  assumes "no_duplicates db" "distinct (participants B)"
  shows "no_duplicates (commit_update db B)"
  using assms by (auto simp: no_duplicates_def commit_update_def)

lemma no_duplicates_init_db: "no_duplicates db \<Longrightarrow> no_duplicates (init_db db)"
  by (cases "db = []") (simp_all add: init_db_nonempty, simp add: init_db_empty no_duplicates_def)

lemma no_duplicates_signup:
  assumes "no_duplicates db"
  shows "no_duplicates (snd (signup_for_activity db n e))"
proof (cases rule: signup_cases [of db n e])
  case (ok A)
  with assms have "distinct (participants (A\<lparr>participants := participants A @ [e]\<rparr>))"
    by (simp add: no_duplicates_def)
  with assms ok(4) show ?thesis by (simp add: no_duplicates_commit_update)
qed (simp_all add: assms)

lemma no_duplicates_unregister:
  assumes "no_duplicates db"
  shows "no_duplicates (snd (unregister_from_activity db n e))"
proof (cases rule: unregister_cases [of db n e])
  case (ok A)
  with assms have "distinct (participants (A\<lparr>participants := remove1 e (participants A)\<rparr>))"
    by (simp add: no_duplicates_def)
  with assms ok(4) show ?thesis by (simp add: no_duplicates_commit_update)
qed (simp_all add: assms)

subsection \<open>Removing one entry keeps the order of the others\<close>

lemma subseq_remove1: "subseq (remove1 x xs) xs"
  by (induction xs) auto

subsection \<open>The dictionary of \<open>get_activities\<close>\<close>

lemma fold_upd_other:
  "n \<notin> name ` set db \<Longrightarrow> fold (\<lambda>a m. m(name a \<mapsto> f a)) db m n = m n"
  by (induction db arbitrary: m) auto

lemma fold_upd_lookup:
  assumes "distinct (map name db)" "A \<in> set db"
  shows "fold (\<lambda>a m. m(name a \<mapsto> f a)) db m (name A) = Some (f A)"
  using assms
proof (induction db arbitrary: m)
  case Nil
  then show ?case by simp
next
  case (Cons r db)
  show ?case
  proof (cases "r = A")
    case True
    with Cons.prems have "name A \<notin> name ` set db" by auto
    then have "fold (\<lambda>a m. m(name a \<mapsto> f a)) db (m(name A \<mapsto> f A)) (name A) =
        (m(name A \<mapsto> f A)) (name A)"
      by (rule fold_upd_other)
    with True show ?thesis by (simp del: fun_upd_apply add: fun_upd_same)
  next
    case False
    with Cons show ?thesis by simp
  qed
qed

lemma dom_fold_upd:
  "dom (fold (\<lambda>a m. m(name a \<mapsto> f a)) db m) = dom m \<union> name ` set db"
  by (induction db arbitrary: m) auto

lemma get_activities_lookup:
  "distinct (map name db) \<Longrightarrow> A \<in> set db \<Longrightarrow> get_activities db (name A) = Some (activity_details A)"
  by (simp add: get_activities_def fold_upd_lookup)

lemma dom_get_activities: "dom (get_activities db) = name ` set db"
  by (simp add: get_activities_def dom_fold_upd)

subsection \<open>The table with a full Chess Club\<close>

lemma chess_club_full_eq:
  "chess_club_full =
    map (\<lambda>r. if name r = ''Chess Club''
          then r\<lparr>participants := participants r @ map (\<lambda>c. c # ''@mergington.edu'') ''abcdefghij''\<rparr>
          else r) (init_db [])"
  by (simp add: chess_club_full_def init_db_empty signup_for_activity_def select_where_name_def
      commit_update_def or_empty_def)

lemma reachable_fold_signup:
  "reachable db \<Longrightarrow> reachable (fold (\<lambda>e d. snd (signup_for_activity d n e)) es db)"
  by (induction es arbitrary: db) (simp_all add: reachable_signup)

lemma reachable_chess_club_full: "reachable chess_club_full"
  unfolding chess_club_full_def
  by (intro reachable_fold_signup reachable.intros)

section \<open>The claims\<close>

text \<open>
  C1: in a well-formed table, for every stored activity \<open>A\<close> and every email \<open>e\<close> that is
  not among the participants of \<open>A\<close>, the signup for the name of \<open>A\<close> succeeds with the
  message "Signed up e for name"; the table then holds \<open>A\<close> with \<open>e\<close> appended at the end of
  its participants, the earlier ones in their order, and \<open>e\<close> occurs exactly once there.
\<close>

theorem signup_new_email_appended:
  assumes "store_ok db" and "A \<in> set db" and "e \<notin> set (participants A)"
  shows "signup_for_activity db (name A) e =
      (Inr [(''message'', ''Signed up '' @ e @ '' for '' @ name A)],
       map (\<lambda>r. if r = A then A\<lparr>participants := participants A @ [e]\<rparr> else r) db)
    \<and> select_where_name (snd (signup_for_activity db (name A) e)) (name A) =
        Some (A\<lparr>participants := participants A @ [e]\<rparr>)
    \<and> count_list (participants A @ [e]) e = 1"
proof -
  note run = signup_success [OF assms]
  have "select_where_name (map (\<lambda>r. if r = A then A\<lparr>participants := participants A @ [e]\<rparr> else r) db)
      (name A) = Some (A\<lparr>participants := participants A @ [e]\<rparr>)"
    using assms(1,2) by (intro select_after_replace) simp_all
  moreover have "count_list (participants A @ [e]) e = 1"
    using assms(3) by simp
  ultimately show ?thesis using run by simp
qed

theorem signup_new_email_appended_witness:
  "store_ok (init_db [])
   \<and> hd (init_db []) \<in> set (init_db [])
   \<and> ''new@mergington.edu'' \<notin> set (participants (hd (init_db [])))
   \<and> fst (signup_for_activity (init_db []) ''Chess Club'' ''new@mergington.edu'') =
       Inr [(''message'', ''Signed up new@mergington.edu for Chess Club'')]
   \<and> map_option participants
       (select_where_name (snd (signup_for_activity (init_db []) ''Chess Club'' ''new@mergington.edu''))
          ''Chess Club'') =
       Some [''michael@mergington.edu'', ''daniel@mergington.edu'', ''new@mergington.edu'']"
proof -
  have h1: "store_ok (init_db [])" by (rule store_ok_seeded)
  have h2: "hd (init_db []) \<in> set (init_db [])" by (simp add: init_db_empty)
  have h3: "''new@mergington.edu'' \<notin> set (participants (hd (init_db [])))"
    by (simp add: init_db_empty)
  have n: "name (hd (init_db [])) = ''Chess Club''" by (simp add: init_db_empty)
  have p: "participants (hd (init_db [])) = [''michael@mergington.edu'', ''daniel@mergington.edu'']"
    by (simp add: init_db_empty)
  note t = signup_new_email_appended [OF h1 h2 h3]
  from t [THEN conjunct1] have c1:
    "fst (signup_for_activity (init_db []) ''Chess Club'' ''new@mergington.edu'') =
       Inr [(''message'', ''Signed up new@mergington.edu for Chess Club'')]"
    by (simp add: n)
  from t [THEN conjunct2, THEN conjunct1] have c2:
    "map_option participants
       (select_where_name (snd (signup_for_activity (init_db []) ''Chess Club'' ''new@mergington.edu''))
          ''Chess Club'') =
       Some [''michael@mergington.edu'', ''daniel@mergington.edu'', ''new@mergington.edu'']"
    by (simp add: n p)
  from h1 h2 h3 c1 c2 show ?thesis by blast
qed

text \<open>
  C2: for every stored activity \<open>A\<close> (names being unique), a signup with an email that is
  already a participant of \<open>A\<close> raises the 400 exception, an unregistration with an email
  that is not a participant of \<open>A\<close> raises the 400 exception, and both leave the table,
  hence the participants of \<open>A\<close> and their number, as they were.
\<close>

theorem conflict_leaves_table_unchanged:
  assumes "distinct (map name db)" and "A \<in> set db"
  shows "(e \<in> set (participants A) \<longrightarrow>
            signup_for_activity db (name A) e =
              (Inl (HTTPException 400 ''Student is already signed up''), db))
       \<and> (e \<notin> set (participants A) \<longrightarrow>
            unregister_from_activity db (name A) e =
              (Inl (HTTPException 400 ''Student is not signed up for this activity''), db))"
  using select_where_name_unique [OF assms]
  by (simp add: signup_for_activity_def unregister_from_activity_def or_empty_def)

theorem conflict_leaves_table_unchanged_witness:
  "distinct (map name (init_db []))
   \<and> hd (init_db []) \<in> set (init_db [])
   \<and> ''michael@mergington.edu'' \<in> set (participants (hd (init_db [])))
   \<and> ''nobody@mergington.edu'' \<notin> set (participants (hd (init_db [])))
   \<and> signup_for_activity (init_db []) ''Chess Club'' ''michael@mergington.edu'' =
       (Inl (HTTPException 400 ''Student is already signed up''), init_db [])
   \<and> unregister_from_activity (init_db []) ''Chess Club'' ''nobody@mergington.edu'' =
       (Inl (HTTPException 400 ''Student is not signed up for this activity''), init_db [])"
proof -
  have h1: "distinct (map name (init_db []))" by (simp add: init_db_empty)
  have h2: "hd (init_db []) \<in> set (init_db [])" by (simp add: init_db_empty)
  have h3: "''michael@mergington.edu'' \<in> set (participants (hd (init_db [])))"
    by (simp add: init_db_empty)
  have h4: "''nobody@mergington.edu'' \<notin> set (participants (hd (init_db [])))"
    by (simp add: init_db_empty)
  have n: "name (hd (init_db [])) = ''Chess Club''" by (simp add: init_db_empty)
  from conflict_leaves_table_unchanged [OF h1 h2, of "''michael@mergington.edu''"]
       conflict_leaves_table_unchanged [OF h1 h2, of "''nobody@mergington.edu''"]
       h1 h2 h3 h4
  show ?thesis by (simp add: n)
qed

text \<open>
  C3: in a well-formed table, for every stored activity \<open>A\<close> and every email \<open>e\<close> among its
  participants, the unregistration succeeds and the table returned (the committed one)
  holds \<open>A\<close> without one occurrence of \<open>e\<close>: one entry fewer, the same entries otherwise,
  in their relative order; with no duplicate in the list, \<open>e\<close> is gone.
\<close>

theorem unregister_present_email_removed:
  assumes "store_ok db" and "A \<in> set db" and "e \<in> set (participants A)"
  shows "unregister_from_activity db (name A) e =
      (Inr [(''message'', ''Unregistered '' @ e @ '' from '' @ name A)],
       map (\<lambda>r. if r = A then A\<lparr>participants := remove1 e (participants A)\<rparr> else r) db)
    \<and> select_where_name (snd (unregister_from_activity db (name A) e)) (name A) =
        Some (A\<lparr>participants := remove1 e (participants A)\<rparr>)
    \<and> mset (remove1 e (participants A)) = mset (participants A) - {#e#}
    \<and> Suc (length (remove1 e (participants A))) = length (participants A)
    \<and> subseq (remove1 e (participants A)) (participants A)
    \<and> (distinct (participants A) \<longrightarrow> e \<notin> set (remove1 e (participants A)))"
proof -
  note run = unregister_success [OF assms]
  have "select_where_name
      (map (\<lambda>r. if r = A then A\<lparr>participants := remove1 e (participants A)\<rparr> else r) db)
      (name A) = Some (A\<lparr>participants := remove1 e (participants A)\<rparr>)"
    using assms(1,2) by (intro select_after_replace) simp_all
  moreover have "Suc (length (remove1 e (participants A))) = length (participants A)"
  proof -
    from assms(3) have "0 < length (participants A)" by (cases "participants A") auto
    with assms(3) show ?thesis by (simp add: length_remove1)
  qed
  moreover have "subseq (remove1 e (participants A)) (participants A)"
    by (rule subseq_remove1)
  ultimately show ?thesis using run by simp
qed

theorem unregister_present_email_removed_witness:
  "store_ok (init_db [])
   \<and> hd (init_db []) \<in> set (init_db [])
   \<and> ''michael@mergington.edu'' \<in> set (participants (hd (init_db [])))
   \<and> distinct (participants (hd (init_db [])))
   \<and> fst (unregister_from_activity (init_db []) ''Chess Club'' ''michael@mergington.edu'') =
       Inr [(''message'', ''Unregistered michael@mergington.edu from Chess Club'')]
   \<and> map_option participants
       (select_where_name
          (snd (unregister_from_activity (init_db []) ''Chess Club'' ''michael@mergington.edu''))
          ''Chess Club'') = Some [''daniel@mergington.edu'']"
proof -
  have h1: "store_ok (init_db [])" by (rule store_ok_seeded)
  have h2: "hd (init_db []) \<in> set (init_db [])" by (simp add: init_db_empty)
  have h3: "''michael@mergington.edu'' \<in> set (participants (hd (init_db [])))"
    by (simp add: init_db_empty)
  have n: "name (hd (init_db [])) = ''Chess Club''" by (simp add: init_db_empty)
  have p: "participants (hd (init_db [])) = [''michael@mergington.edu'', ''daniel@mergington.edu'']"
    by (simp add: init_db_empty)
  have h4: "distinct (participants (hd (init_db [])))" by (simp add: p)
  note t = unregister_present_email_removed [OF h1 h2 h3]
  from t [THEN conjunct1] have c1:
    "fst (unregister_from_activity (init_db []) ''Chess Club'' ''michael@mergington.edu'') =
       Inr [(''message'', ''Unregistered michael@mergington.edu from Chess Club'')]"
    by (simp add: n)
  from t [THEN conjunct2, THEN conjunct1] have c2:
    "map_option participants
       (select_where_name
          (snd (unregister_from_activity (init_db []) ''Chess Club'' ''michael@mergington.edu''))
          ''Chess Club'') = Some [''daniel@mergington.edu'']"
    by (simp add: n p)
  from h1 h2 h3 h4 c1 c2 show ?thesis by blast
qed

text \<open>
  C4: for a name that no stored activity has, and any email, signup and unregister both
  raise the 404 exception "Activity not found", and the table is left as it was.
\<close>

theorem unknown_activity_not_found:
  assumes "n \<notin> name ` set db"
  shows "signup_for_activity db n e = (Inl (HTTPException 404 ''Activity not found''), db)
       \<and> unregister_from_activity db n e = (Inl (HTTPException 404 ''Activity not found''), db)"
  using select_where_name_None [OF assms]
  by (simp add: signup_for_activity_def unregister_from_activity_def)

theorem unknown_activity_not_found_witness:
  "''Debate Team'' \<notin> name ` set (init_db [])
   \<and> signup_for_activity (init_db []) ''Debate Team'' ''emma@mergington.edu'' =
       (Inl (HTTPException 404 ''Activity not found''), init_db [])
   \<and> unregister_from_activity (init_db []) ''Debate Team'' ''emma@mergington.edu'' =
       (Inl (HTTPException 404 ''Activity not found''), init_db [])"
proof -
  have h: "''Debate Team'' \<notin> name ` set (init_db [])" by (simp add: init_db_empty)
  from unknown_activity_not_found [OF h, of "''emma@mergington.edu''"] h show ?thesis
    by simp
qed

text \<open>
  C5: in every table reachable from the empty one by startups (seeding), signups and
  unregistrations, no activity has an email twice in its participants.
\<close>

theorem reachable_no_duplicate_email:
  assumes "reachable db" "a \<in> set db"
  shows "distinct (participants a)"
proof -
  from assms(1) have "no_duplicates db"
  proof (induction rule: reachable.induct)
    case reachable_empty
    show ?case by (simp add: no_duplicates_def)
  qed (simp_all add: no_duplicates_init_db no_duplicates_signup no_duplicates_unregister)
  with assms(2) show ?thesis by (simp add: no_duplicates_def)
qed

theorem reachable_no_duplicate_email_witness:
  "reachable (snd (signup_for_activity (init_db []) ''Gym Class'' ''new@mergington.edu''))
   \<and> last (snd (signup_for_activity (init_db []) ''Gym Class'' ''new@mergington.edu''))
       \<in> set (snd (signup_for_activity (init_db []) ''Gym Class'' ''new@mergington.edu''))
   \<and> participants (last (snd (signup_for_activity (init_db []) ''Gym Class'' ''new@mergington.edu'')))
       = [''john@mergington.edu'', ''olivia@mergington.edu'', ''new@mergington.edu'']
   \<and> distinct (participants
        (last (snd (signup_for_activity (init_db []) ''Gym Class'' ''new@mergington.edu''))))"
proof -
  let ?db = "snd (signup_for_activity (init_db []) ''Gym Class'' ''new@mergington.edu'')"
  have r: "reachable ?db" by (intro reachable.intros)
  have v: "?db = map (\<lambda>r. if name r = ''Gym Class''
        then r\<lparr>participants := participants r @ [''new@mergington.edu'']\<rparr> else r) (init_db [])"
    by (simp add: init_db_empty signup_for_activity_def select_where_name_def commit_update_def
        or_empty_def)
  have m: "last ?db \<in> set ?db" unfolding v by (simp add: init_db_empty)
  have p: "participants (last ?db) =
      [''john@mergington.edu'', ''olivia@mergington.edu'', ''new@mergington.edu'']"
    unfolding v by (simp add: init_db_empty)
  from reachable_no_duplicate_email [OF r m] r m p show ?thesis by blast
qed

text \<open>
  C6: \<open>init_db\<close> on the empty table inserts exactly the three activities "Chess Club",
  "Programming Class" and "Gym Class" with the descriptions, schedules, capacities and
  participants of the seed; on a table that holds any activity it inserts nothing, so a
  second startup leaves the seeded table as it is.
\<close>

theorem init_db_seeds_once:
  "init_db [] =
    [\<lparr>id' = Some 1, name = ''Chess Club'',
      description = Some ''Learn strategies and compete in chess tournaments'',
      schedule = Some ''Fridays, 3:30 PM - 5:00 PM'', max_participants = Some 12,
      participants = [''michael@mergington.edu'', ''daniel@mergington.edu'']\<rparr>,
     \<lparr>id' = Some 2, name = ''Programming Class'',
      description = Some ''Learn programming fundamentals and build software projects'',
      schedule = Some ''Tuesdays and Thursdays, 3:30 PM - 4:30 PM'', max_participants = Some 20,
      participants = [''emma@mergington.edu'', ''sophia@mergington.edu'']\<rparr>,
     \<lparr>id' = Some 3, name = ''Gym Class'',
      description = Some ''Physical education and sports activities'',
      schedule = Some ''Mondays, Wednesdays, Fridays, 2:00 PM - 3:00 PM'', max_participants = Some 30,
      participants = [''john@mergington.edu'', ''olivia@mergington.edu'']\<rparr>]
   \<and> length (init_db []) = 3
   \<and> (db \<noteq> [] \<longrightarrow> init_db db = db)
   \<and> init_db (init_db []) = init_db []"
proof -
  have "init_db [] \<noteq> []" by (simp add: init_db_empty)
  then have "init_db (init_db []) = init_db []" by (rule init_db_nonempty)
  then show ?thesis by (simp add: init_db_nonempty) (simp add: init_db_empty)
qed

theorem init_db_seeds_once_witness:
  "init_db [] \<noteq> []
   \<and> map name (init_db []) = [''Chess Club'', ''Programming Class'', ''Gym Class'']
   \<and> init_db (snd (signup_for_activity (init_db []) ''Chess Club'' ''new@mergington.edu'')) =
       snd (signup_for_activity (init_db []) ''Chess Club'' ''new@mergington.edu'')"
proof -
  let ?db = "snd (signup_for_activity (init_db []) ''Chess Club'' ''new@mergington.edu'')"
  have "length ?db = 3"
    by (simp add: init_db_empty signup_for_activity_def select_where_name_def commit_update_def)
  then have h: "?db \<noteq> []" by auto
  have "map name (init_db []) = [''Chess Club'', ''Programming Class'', ''Gym Class'']"
    using init_db_seeds_once [of ?db] by simp
  moreover have "init_db [] \<noteq> []" using init_db_seeds_once [of ?db] by simp
  ultimately show ?thesis using init_db_seeds_once [of ?db] h by blast
qed

text \<open>
  C7: the signup does not look at \<open>max_participants\<close>: in a well-formed table, for every
  stored activity \<open>A\<close> that has at least \<open>max_participants\<close> participants and every email
  \<open>e\<close> not among them, the signup still succeeds and appends \<open>e\<close>, which takes the
  activity beyond its capacity.
\<close>

theorem signup_ignores_max_participants:
  assumes "store_ok db" and "A \<in> set db" and "e \<notin> set (participants A)"
    and "max_participants A = Some m" and "m \<le> int (length (participants A))"
  shows "signup_for_activity db (name A) e =
      (Inr [(''message'', ''Signed up '' @ e @ '' for '' @ name A)],
       map (\<lambda>r. if r = A then A\<lparr>participants := participants A @ [e]\<rparr> else r) db)
    \<and> m < int (length (participants A @ [e]))"
  using signup_success [OF assms(1-3)] assms(5) by simp

theorem signup_ignores_max_participants_witness:
  "reachable chess_club_full
   \<and> store_ok chess_club_full
   \<and> hd chess_club_full \<in> set chess_club_full
   \<and> ''new@mergington.edu'' \<notin> set (participants (hd chess_club_full))
   \<and> max_participants (hd chess_club_full) = Some 12
   \<and> (12::int) \<le> int (length (participants (hd chess_club_full)))
   \<and> fst (signup_for_activity chess_club_full ''Chess Club'' ''new@mergington.edu'') =
       Inr [(''message'', ''Signed up new@mergington.edu for Chess Club'')]
   \<and> length (participants (hd (snd
        (signup_for_activity chess_club_full ''Chess Club'' ''new@mergington.edu'')))) = 13"
proof -
  have h0: "reachable chess_club_full" by (rule reachable_chess_club_full)
  then have h1: "store_ok chess_club_full" by (rule reachable_store_ok)
  have h2: "hd chess_club_full \<in> set chess_club_full"
    unfolding chess_club_full_eq by (simp add: init_db_empty)
  have p: "participants (hd chess_club_full) =
      [''michael@mergington.edu'', ''daniel@mergington.edu''] @
      map (\<lambda>c. c # ''@mergington.edu'') ''abcdefghij''"
    unfolding chess_club_full_eq by (simp add: init_db_empty)
  have n: "name (hd chess_club_full) = ''Chess Club''"
    unfolding chess_club_full_eq by (simp add: init_db_empty)
  have h3: "''new@mergington.edu'' \<notin> set (participants (hd chess_club_full))"
    unfolding p by simp
  have h4: "max_participants (hd chess_club_full) = Some 12"
    unfolding chess_club_full_eq by (simp add: init_db_empty)
  have h5: "(12::int) \<le> int (length (participants (hd chess_club_full)))"
    unfolding p by simp
  note t = signup_ignores_max_participants [OF h1 h2 h3 h4 h5]
  have ne: "chess_club_full \<noteq> []" unfolding chess_club_full_eq by (simp add: init_db_empty)
  from t [THEN conjunct1] have c1:
    "fst (signup_for_activity chess_club_full ''Chess Club'' ''new@mergington.edu'') =
       Inr [(''message'', ''Signed up new@mergington.edu for Chess Club'')]"
    by (simp add: n)
  from t [THEN conjunct1] ne have c2:
    "length (participants (hd (snd
        (signup_for_activity chess_club_full ''Chess Club'' ''new@mergington.edu'')))) = 13"
    by (simp add: n hd_map p)
  from h0 h1 h2 h3 h4 h5 c1 c2 show ?thesis by blast
qed

text \<open>
  C8: in a well-formed table, the dictionary of \<open>get_activities\<close> has exactly the names of
  the stored activities as keys, and the entry of each stored activity \<open>A\<close> is its
  description, schedule, max_participants and participants, the participants in the
  order of the stored list; since a signup appends, an email added last is listed last.
\<close>

theorem get_activities_lists_every_activity:
  assumes "store_ok db" and "A \<in> set db"
  shows "get_activities db (name A) =
      Some [(''description'', py_opt_str (description A)),
            (''schedule'', py_opt_str (schedule A)),
            (''max_participants'', py_opt_int (max_participants A)),
            (''participants'', PyList (map PyStr (participants A)))]
    \<and> dom (get_activities db) = name ` set db
    \<and> (e \<notin> set (participants A) \<longrightarrow>
         get_activities (snd (signup_for_activity db (name A) e)) (name A) =
           Some [(''description'', py_opt_str (description A)),
                 (''schedule'', py_opt_str (schedule A)),
                 (''max_participants'', py_opt_int (max_participants A)),
                 (''participants'', PyList (map PyStr (participants A @ [e])))])"
proof -
  from assms have "get_activities db (name A) = Some (activity_details A)"
    by (simp add: store_ok_def get_activities_lookup)
  moreover have "get_activities (snd (signup_for_activity db (name A) e)) (name A) =
      Some (activity_details (A\<lparr>participants := participants A @ [e]\<rparr>))"
    if e: "e \<notin> set (participants A)"
  proof -
    let ?A = "A\<lparr>participants := participants A @ [e]\<rparr>"
    let ?db = "map (\<lambda>r. if r = A then ?A else r) db"
    have run: "snd (signup_for_activity db (name A) e) = ?db"
      using signup_success [OF assms e] by simp
    have "store_ok ?db" using assms(1) by (simp add: store_ok_replace)
    then have names: "distinct (map name ?db)" unfolding store_ok_def ..
    have mem: "?A \<in> set ?db" using assms(2) by (auto simp: image_iff)
    have "get_activities ?db (name ?A) = Some (activity_details ?A)"
      using names mem by (rule get_activities_lookup)
    then show ?thesis unfolding run by simp
  qed
  ultimately show ?thesis by (simp add: activity_details_def dom_get_activities)
qed

theorem get_activities_lists_every_activity_witness:
  "store_ok (init_db [])
   \<and> hd (init_db []) \<in> set (init_db [])
   \<and> ''new@mergington.edu'' \<notin> set (participants (hd (init_db [])))
   \<and> get_activities (init_db []) ''Chess Club'' =
       Some [(''description'', PyStr ''Learn strategies and compete in chess tournaments''),
             (''schedule'', PyStr ''Fridays, 3:30 PM - 5:00 PM''),
             (''max_participants'', PyInt 12),
             (''participants'',
                PyList [PyStr ''michael@mergington.edu'', PyStr ''daniel@mergington.edu''])]
   \<and> dom (get_activities (init_db [])) = {''Chess Club'', ''Programming Class'', ''Gym Class''}
   \<and> map_option (\<lambda>d. map_of d ''participants'')
        (get_activities (snd (signup_for_activity (init_db []) ''Chess Club'' ''new@mergington.edu''))
           ''Chess Club'') =
       Some (Some (PyList [PyStr ''michael@mergington.edu'', PyStr ''daniel@mergington.edu'',
                           PyStr ''new@mergington.edu'']))"
proof -
  have h1: "store_ok (init_db [])" by (rule store_ok_seeded)
  have h2: "hd (init_db []) \<in> set (init_db [])" by (simp add: init_db_empty)
  have h3: "''new@mergington.edu'' \<notin> set (participants (hd (init_db [])))"
    by (simp add: init_db_empty)
  have A: "hd (init_db []) =
     \<lparr>id' = Some 1, name = ''Chess Club'',
      description = Some ''Learn strategies and compete in chess tournaments'',
      schedule = Some ''Fridays, 3:30 PM - 5:00 PM'', max_participants = Some 12,
      participants = [''michael@mergington.edu'', ''daniel@mergington.edu'']\<rparr>"
    by (simp add: init_db_empty)
  note t = get_activities_lists_every_activity [OF h1 h2, of "''new@mergington.edu''"]
  from t [THEN conjunct1] have c1: "get_activities (init_db []) ''Chess Club'' =
       Some [(''description'', PyStr ''Learn strategies and compete in chess tournaments''),
             (''schedule'', PyStr ''Fridays, 3:30 PM - 5:00 PM''),
             (''max_participants'', PyInt 12),
             (''participants'',
                PyList [PyStr ''michael@mergington.edu'', PyStr ''daniel@mergington.edu''])]"
    by (simp add: A py_opt_str_def py_opt_int_def)
  from t [THEN conjunct2, THEN conjunct1] have c2:
    "dom (get_activities (init_db [])) = {''Chess Club'', ''Programming Class'', ''Gym Class''}"
    by (simp add: init_db_empty)
  from t [THEN conjunct2, THEN conjunct2] h3 have c3:
    "map_option (\<lambda>d. map_of d ''participants'')
        (get_activities (snd (signup_for_activity (init_db []) ''Chess Club'' ''new@mergington.edu''))
           ''Chess Club'') =
       Some (Some (PyList [PyStr ''michael@mergington.edu'', PyStr ''daniel@mergington.edu'',
                           PyStr ''new@mergington.edu'']))"
    by (simp add: A)
  from h1 h2 h3 c1 c2 c3 show ?thesis by blast
qed

text \<open>
  C9: a successful signup or unregistration for the name \<open>n\<close> (keys being distinct)
  returns a table with the same rows in the same places, each with its id, name,
  description, schedule and max_participants unchanged, and every row whose name is not
  \<open>n\<close> unchanged altogether.
\<close>

theorem handlers_change_only_participants:
  assumes "distinct (map id' db)"
    and "signup_for_activity db n e = (Inr msg, db') \<or> unregister_from_activity db n e = (Inr msg, db')"
  shows "list_all2
      (\<lambda>a a'. id' a' = id' a \<and> name a' = name a \<and> description a' = description a
         \<and> schedule a' = schedule a \<and> max_participants a' = max_participants a
         \<and> (name a \<noteq> n \<longrightarrow> a' = a)) db db'"
proof -
  have frame: "list_all2
      (\<lambda>a a'. id' a' = id' a \<and> name a' = name a \<and> description a' = description a
         \<and> schedule a' = schedule a \<and> max_participants a' = max_participants a
         \<and> (name a \<noteq> n \<longrightarrow> a' = a)) db (commit_update db (A\<lparr>participants := ps\<rparr>))"
    if "A \<in> set db" "name A = n" for A ps
  proof -
    have "commit_update db (A\<lparr>participants := ps\<rparr>) =
        map (\<lambda>r. if r = A then A\<lparr>participants := ps\<rparr> else r) db"
      using assms(1) that(1) by (intro commit_update_pk) simp_all
    then show ?thesis using that(2) by (simp add: list_all2_map2 list_all2_same)
  qed
  from assms(2) show ?thesis
  proof
    assume s: "signup_for_activity db n e = (Inr msg, db')"
    show ?thesis
      by (cases rule: signup_cases [of db n e]) (use s frame in auto)
  next
    assume u: "unregister_from_activity db n e = (Inr msg, db')"
    show ?thesis
      by (cases rule: unregister_cases [of db n e]) (use u frame in auto)
  qed
qed

theorem handlers_change_only_participants_witness:
  "distinct (map id' (init_db []))
   \<and> fst (signup_for_activity (init_db []) ''Chess Club'' ''new@mergington.edu'') =
       Inr [(''message'', ''Signed up new@mergington.edu for Chess Club'')]
   \<and> fst (unregister_from_activity (init_db []) ''Gym Class'' ''john@mergington.edu'') =
       Inr [(''message'', ''Unregistered john@mergington.edu from Gym Class'')]
   \<and> list_all2
      (\<lambda>a a'. id' a' = id' a \<and> name a' = name a \<and> description a' = description a
         \<and> schedule a' = schedule a \<and> max_participants a' = max_participants a
         \<and> (name a \<noteq> ''Chess Club'' \<longrightarrow> a' = a))
      (init_db []) (snd (signup_for_activity (init_db []) ''Chess Club'' ''new@mergington.edu''))
   \<and> list_all2
      (\<lambda>a a'. id' a' = id' a \<and> name a' = name a \<and> description a' = description a
         \<and> schedule a' = schedule a \<and> max_participants a' = max_participants a
         \<and> (name a \<noteq> ''Gym Class'' \<longrightarrow> a' = a))
      (init_db []) (snd (unregister_from_activity (init_db []) ''Gym Class'' ''john@mergington.edu''))"
proof -
  have h1: "distinct (map id' (init_db []))" by (simp add: init_db_empty)
  have s: "fst (signup_for_activity (init_db []) ''Chess Club'' ''new@mergington.edu'') =
       Inr [(''message'', ''Signed up new@mergington.edu for Chess Club'')]"
    by (simp add: init_db_empty signup_for_activity_def select_where_name_def)
  have u: "fst (unregister_from_activity (init_db []) ''Gym Class'' ''john@mergington.edu'') =
       Inr [(''message'', ''Unregistered john@mergington.edu from Gym Class'')]"
    by (simp add: init_db_empty unregister_from_activity_def select_where_name_def or_empty_def)
  from s have s': "signup_for_activity (init_db []) ''Chess Club'' ''new@mergington.edu'' =
      (Inr [(''message'', ''Signed up new@mergington.edu for Chess Club'')],
       snd (signup_for_activity (init_db []) ''Chess Club'' ''new@mergington.edu''))"
    by (simp add: prod_eq_iff)
  from u have u': "unregister_from_activity (init_db []) ''Gym Class'' ''john@mergington.edu'' =
      (Inr [(''message'', ''Unregistered john@mergington.edu from Gym Class'')],
       snd (unregister_from_activity (init_db []) ''Gym Class'' ''john@mergington.edu''))"
    by (simp add: prod_eq_iff)
  from h1 s u
    handlers_change_only_participants [OF h1 disjI1, OF s']
    handlers_change_only_participants [OF h1 disjI2, OF u']
  show ?thesis by blast
qed

text \<open>
  C10: the email is not validated. In a well-formed table, for every stored activity
  \<open>A\<close> and every string \<open>e\<close> whatsoever, the signup succeeds and stores \<open>e\<close> as it is when
  \<open>e\<close> is not among the participants of \<open>A\<close>, and the unregistration succeeds when it is.
\<close>

theorem email_not_validated:
  assumes "store_ok db" and "A \<in> set db"
  shows "(e \<notin> set (participants A) \<longrightarrow>
          signup_for_activity db (name A) e =
            (Inr [(''message'', ''Signed up '' @ e @ '' for '' @ name A)],
             map (\<lambda>r. if r = A then A\<lparr>participants := participants A @ [e]\<rparr> else r) db))
       \<and> (e \<in> set (participants A) \<longrightarrow>
          unregister_from_activity db (name A) e =
            (Inr [(''message'', ''Unregistered '' @ e @ '' from '' @ name A)],
             map (\<lambda>r. if r = A then A\<lparr>participants := remove1 e (participants A)\<rparr> else r) db))"
  using signup_success [OF assms] unregister_success [OF assms] by blast

theorem email_not_validated_witness:
  "store_ok (init_db [])
   \<and> hd (init_db []) \<in> set (init_db [])
   \<and> '''' \<notin> set (participants (hd (init_db [])))
   \<and> ''not an email'' \<notin> set (participants (hd (init_db [])))
   \<and> fst (signup_for_activity (init_db []) ''Chess Club'' '''') =
       Inr [(''message'', ''Signed up  for Chess Club'')]
   \<and> map participants (snd (signup_for_activity (init_db []) ''Chess Club'' '''')) =
       [[''michael@mergington.edu'', ''daniel@mergington.edu'', ''''],
        [''emma@mergington.edu'', ''sophia@mergington.edu''],
        [''john@mergington.edu'', ''olivia@mergington.edu'']]
   \<and> map participants (snd (signup_for_activity (init_db []) ''Chess Club'' ''not an email'')) =
       [[''michael@mergington.edu'', ''daniel@mergington.edu'', ''not an email''],
        [''emma@mergington.edu'', ''sophia@mergington.edu''],
        [''john@mergington.edu'', ''olivia@mergington.edu'']]
   \<and> unregister_from_activity (snd (signup_for_activity (init_db []) ''Chess Club'' ''''))
        ''Chess Club'' '''' =
       (Inr [(''message'', ''Unregistered  from Chess Club'')], init_db [])"
proof -
  let ?db1 = "snd (signup_for_activity (init_db []) ''Chess Club'' '''')"
  have h1: "store_ok (init_db [])" by (rule store_ok_seeded)
  have h2: "hd (init_db []) \<in> set (init_db [])" by (simp add: init_db_empty)
  have h3: "'''' \<notin> set (participants (hd (init_db [])))" by (simp add: init_db_empty)
  have h4: "''not an email'' \<notin> set (participants (hd (init_db [])))" by (simp add: init_db_empty)
  have n: "name (hd (init_db [])) = ''Chess Club''" by (simp add: init_db_empty)
  from email_not_validated [OF h1 h2, of "''''"] h3
  have s1: "signup_for_activity (init_db []) ''Chess Club'' '''' =
      (Inr [(''message'', ''Signed up  for Chess Club'')],
       map (\<lambda>r. if r = hd (init_db []) then (hd (init_db []))\<lparr>participants :=
          participants (hd (init_db [])) @ ['''']\<rparr> else r) (init_db []))"
    by (simp add: n)
  from email_not_validated [OF h1 h2, of "''not an email''"] h4
  have s2: "signup_for_activity (init_db []) ''Chess Club'' ''not an email'' =
      (Inr [(''message'', ''Signed up not an email for Chess Club'')],
       map (\<lambda>r. if r = hd (init_db []) then (hd (init_db []))\<lparr>participants :=
          participants (hd (init_db [])) @ [''not an email'']\<rparr> else r) (init_db []))"
    by (simp add: n)
  have c1: "fst (signup_for_activity (init_db []) ''Chess Club'' '''') =
       Inr [(''message'', ''Signed up  for Chess Club'')]"
    unfolding s1 by simp
  have c2: "map participants ?db1 =
       [[''michael@mergington.edu'', ''daniel@mergington.edu'', ''''],
        [''emma@mergington.edu'', ''sophia@mergington.edu''],
        [''john@mergington.edu'', ''olivia@mergington.edu'']]"
    unfolding s1 by (simp add: init_db_empty)
  have c3: "map participants (snd (signup_for_activity (init_db []) ''Chess Club'' ''not an email'')) =
       [[''michael@mergington.edu'', ''daniel@mergington.edu'', ''not an email''],
        [''emma@mergington.edu'', ''sophia@mergington.edu''],
        [''john@mergington.edu'', ''olivia@mergington.edu'']]"
    unfolding s2 by (simp add: init_db_empty)
  have k1: "store_ok ?db1" using h1 by (rule store_ok_signup)
  have k2: "hd ?db1 \<in> set ?db1" unfolding s1 by (simp add: init_db_empty)
  have k3: "'''' \<in> set (participants (hd ?db1))" unfolding s1 by (simp add: init_db_empty)
  have n1: "name (hd ?db1) = ''Chess Club''" unfolding s1 by (simp add: init_db_empty)
  have restored: "map (\<lambda>r. if r = hd ?db1
        then (hd ?db1)\<lparr>participants := remove1 '''' (participants (hd ?db1))\<rparr> else r) ?db1 =
      init_db []"
    unfolding s1 by (simp add: init_db_empty)
  from email_not_validated [OF k1 k2, of "''''"] k3
  have c4: "unregister_from_activity ?db1 ''Chess Club'' '''' =
       (Inr [(''message'', ''Unregistered  from Chess Club'')], init_db [])"
    by (simp add: n1 restored)
  from h1 h2 h3 h4 c1 c2 c3 c4 show ?thesis by blast
qed

end
